theory Spec2Isabelle
  imports Main "HOL-Library.Multiset"
begin

text \<open>
  A model of \<^verbatim>\<open>wytch/view.py\<close>, the view and widget framework of the wytch terminal
  toolkit: the stacking layouts, the sizing pass of the grid, the layout pass of the
  plain container, the focus machinery with the tree of children, and value widgets with
  radio groups.  The definitions come first, each next to the name of the method it
  follows; the properties of each part come after them.
\<close>

section \<open>Canvases\<close>

text \<open>
  Modelled from the spec: the module \<^verbatim>\<open>wytch.canvas\<close> is not part of the sources at
  hand.  A canvas is a rectangular drawing surface with a width and a height; a
  sub-canvas is created from a parent canvas, an offset and an extent.  The model keeps
  the arguments of the constructor call \<^verbatim>\<open>canvas.SubCanvas(parent, x, y, width, height)\<close>
  and reads the extent of a sub-canvas as the extent it was created with.
\<close>

datatype canvas =
  Canvas int int
| SubCanvas canvas int int int int

fun Canvas_width :: "canvas \<Rightarrow> int" where
  "Canvas_width (Canvas w h) = w"
| "Canvas_width (SubCanvas p x y w h) = w"

fun Canvas_height :: "canvas \<Rightarrow> int" where
  "Canvas_height (Canvas w h) = h"
| "Canvas_height (SubCanvas p x y w h) = h"

section \<open>Linear stacking: \<^verbatim>\<open>Vertical.recalc\<close> and \<^verbatim>\<open>Horizontal.recalc\<close>\<close>

text \<open>
  The stacking containers read three properties of each child (\<^verbatim>\<open>size\<close>, a pair of
  width and height, \<^verbatim>\<open>hstretch\<close> and \<^verbatim>\<open>vstretch\<close>) and assign its \<^verbatim>\<open>canvas\<close>.  The
  \<^verbatim>\<open>recalc\<close> that the assignment starts in the child works below the child and changes
  none of the four.
\<close>

record child =
  size_v :: "int \<times> int"
  hstretch :: bool
  vstretch :: bool
  canvas_v :: "canvas option"

text \<open>
  Python 3's \<^verbatim>\<open>round(a / b)\<close> for integers \<open>a\<close> and \<open>b > 0\<close>: the quotient
  rounded to the nearest integer, a tie going to the even neighbour.  (The float
  quotient is exact enough for every extent a terminal can have.)
\<close>

definition py_round_div :: "int \<Rightarrow> int \<Rightarrow> int" where
  "py_round_div a b =
     (let q = a div b; r = a mod b
      in if 2 * r < b then q
         else if 2 * r > b then q + 1
         else if even q then q else q + 1)"

text \<open>The loop of \<^verbatim>\<open>Vertical.recalc\<close>; \<open>remh\<close> and \<open>h\<close> are the loop's variables.\<close>

fun Vertical_loop :: "canvas \<Rightarrow> int \<Rightarrow> child list \<Rightarrow> int \<Rightarrow> int \<Rightarrow> child list" where
  "Vertical_loop cv perc [] remh h = []"
| "Vertical_loop cv perc (c # cs) remh h =
     (if snd (size_v c) = 0 then c # Vertical_loop cv perc cs remh h
      else if vstretch c then
        (let ch = (if remh > perc then perc else remh);
             remh' = remh - ch;
             ch' = ch + snd (size_v c)
         in c\<lparr>canvas_v := Some (SubCanvas cv 0 h (Canvas_width cv) ch')\<rparr>
              # Vertical_loop cv perc cs remh' (h + ch'))
      else
        (let ch = snd (size_v c)
         in c\<lparr>canvas_v := Some (SubCanvas cv 0 h (Canvas_width cv) ch)\<rparr>
              # Vertical_loop cv perc cs remh (h + ch)))"

definition Vertical_recalc :: "canvas \<Rightarrow> child list \<Rightarrow> child list" where
  "Vertical_recalc cv children =
     (let anyc = int (length (filter vstretch children));
          remh = Canvas_height cv - sum_list (map (\<lambda>c. snd (size_v c)) children);
          perc = (if anyc \<noteq> 0 then py_round_div remh anyc else 0)
      in Vertical_loop cv perc children remh 0)"













text \<open>A freshly constructed child: no canvas yet.\<close>

definition fresh :: "int \<times> int \<Rightarrow> bool \<Rightarrow> bool \<Rightarrow> child" where
  "fresh sz hs vs = \<lparr>size_v = sz, hstretch = hs, vstretch = vs, canvas_v = None\<rparr>"

section \<open>Views in a store: focus, children and the dirty flag\<close>

text \<open>
  A child refers to its parent and a container to its children, and the focus callbacks
  run up and down these references, so the views live in a store indexed by object
  identity.  \<open>vclass\<close> is the class whose methods a view dispatches to: \<^verbatim>\<open>View\<close>,
  \<^verbatim>\<open>Widget\<close>, \<^verbatim>\<open>ContainerView\<close> or \<^verbatim>\<open>Grid\<close>.  The fields \<open>u_focused\<close>, \<open>u_focusable\<close>
  and \<open>u_dirty\<close> are the attributes \<^verbatim>\<open>_focused\<close>, \<^verbatim>\<open>_focusable\<close> and \<^verbatim>\<open>_dirty\<close>.
  \<open>gwidth\<close>, \<open>gheight\<close> and \<open>grid\<close> are the attributes \<^verbatim>\<open>width\<close>, \<^verbatim>\<open>height\<close> and
  \<^verbatim>\<open>grid\<close> of a \<^verbatim>\<open>Grid\<close>.
\<close>

datatype vclass = View | Widget | ContainerView | Grid

record 'c cell =
  child_of :: 'c
  colspan :: nat
  rowspan :: nat

record view =
  vclass :: vclass
  parent :: "nat option"
  zindex :: int
  u_focused :: bool
  u_focusable :: bool
  display :: bool
  u_dirty :: bool
  children :: "nat list"
  gwidth :: nat
  gheight :: nat
  grid :: "nat cell option list list"

text \<open>
  The trace lists the callbacks that ran, in order.  \<^verbatim>\<open>View.update\<close> wakes the render
  thread through the \<^verbatim>\<open>onupdate\<close> callback of the root, which the host supplies; the
  model records the call.
\<close>

datatype call =
  OnFocus nat
| OnUnfocus nat
| OnChildFocused nat nat
| Update nat

record state =
  views :: "nat \<Rightarrow> view"
  trace :: "call list"

datatype error = NotImplementedError | IndexError | ValueError

text \<open>
  A method call ends normally, or raises with the store as it is at the raise, or the
  model runs out of fuel (the fuel bounds the depth of nested calls).
\<close>

datatype 'a outcome = Done 'a | Raised error 'a | OutOfFuel

definition set_view :: "state \<Rightarrow> nat \<Rightarrow> (view \<Rightarrow> view) \<Rightarrow> state" where
  "set_view s a f = s\<lparr>views := (views s)(a := f (views s a))\<rparr>"

definition update :: "state \<Rightarrow> nat \<Rightarrow> state" where
  "update s a = s\<lparr>trace := trace s @ [Update a]\<rparr>"

definition called :: "state \<Rightarrow> call \<Rightarrow> state" where
  "called s c = s\<lparr>trace := trace s @ [c]\<rparr>"

text \<open>
  The property \<^verbatim>\<open>focusable\<close>: the attribute for a \<^verbatim>\<open>View\<close>, and
  \<^verbatim>\<open>any([c.focusable for c in self.children])\<close> for a \<^verbatim>\<open>ContainerView\<close>.
\<close>

fun focusable :: "nat \<Rightarrow> state \<Rightarrow> nat \<Rightarrow> bool option" where
  "focusable 0 s a = None"
| "focusable (Suc n) s a =
     (case vclass (views s a) of
        View \<Rightarrow> Some (u_focusable (views s a))
      | Widget \<Rightarrow> Some (u_focusable (views s a))
      | ContainerView \<Rightarrow>
          map_option (list_ex (\<lambda>b. b)) (those (map (focusable n s) (children (views s a))))
      | Grid \<Rightarrow>
          map_option (list_ex (\<lambda>b. b)) (those (map (focusable n s) (children (views s a)))))"

text \<open>
  The setter of \<^verbatim>\<open>View.focused\<close> and the callbacks it runs.  Each \<^verbatim>\<open>for\<close> loop is a
  function of its own over the list it walks:
  \<^item> \<open>onfocus_loop\<close>: the loop of \<^verbatim>\<open>ContainerView.onfocus\<close>;
  \<^item> \<open>Grid_onfocus_scan\<close>: the two loops of \<^verbatim>\<open>Grid.onfocus\<close>, which visit the cells row
    by row (the table always has \<^verbatim>\<open>height\<close> rows of \<^verbatim>\<open>width\<close> cells) and return at the
    first cell they focus;
  \<^item> \<open>onunfocus_loop\<close>: the loop of \<^verbatim>\<open>ContainerView.onunfocus\<close>;
  \<^item> \<open>onchildfocused_loop\<close>: the loop of \<^verbatim>\<open>ContainerView.onchildfocused\<close>.
\<close>

function set_focused :: "nat \<Rightarrow> state \<Rightarrow> nat \<Rightarrow> bool \<Rightarrow> state outcome"
  and onfocus :: "nat \<Rightarrow> state \<Rightarrow> nat \<Rightarrow> state outcome"
  and onfocus_loop :: "nat \<Rightarrow> state \<Rightarrow> nat list \<Rightarrow> state outcome"
  and Grid_onfocus_scan :: "nat \<Rightarrow> state \<Rightarrow> nat cell option list \<Rightarrow> state outcome"
  and onunfocus :: "nat \<Rightarrow> state \<Rightarrow> nat \<Rightarrow> state outcome"
  and onunfocus_loop :: "nat \<Rightarrow> state \<Rightarrow> nat list \<Rightarrow> state outcome"
  and onchildfocused :: "nat \<Rightarrow> state \<Rightarrow> nat \<Rightarrow> nat \<Rightarrow> state outcome"
  and onchildfocused_loop :: "nat \<Rightarrow> state \<Rightarrow> nat list \<Rightarrow> nat \<Rightarrow> state outcome"
where
  "set_focused 0 s a f = OutOfFuel"
| "set_focused (Suc n) s a f =
     (if u_focused (views s a) = f then Done s
      else
        (case (if f then focusable n s a else Some True) of
           None \<Rightarrow> OutOfFuel
         | Some False \<Rightarrow> Raised NotImplementedError s
         | Some True \<Rightarrow>
             (let s1 = set_view s a (\<lambda>v. v\<lparr>u_focused := f\<rparr>)
              in if f then
                   (case onfocus n s1 a of
                      Done s2 \<Rightarrow>
                        (case parent (views s2 a) of
                           None \<Rightarrow> Done s2
                         | Some p \<Rightarrow> onchildfocused n s2 p a)
                    | r \<Rightarrow> r)
                 else onunfocus n s1 a)))"
| "onfocus 0 s a = OutOfFuel"
| "onfocus (Suc n) s a =
     (let s0 = called s (OnFocus a)
      in case vclass (views s a) of
           View \<Rightarrow> Done s0
         | Widget \<Rightarrow> Done (update s0 a)
         | ContainerView \<Rightarrow>
             (if length (children (views s0 a)) > 0
              then onfocus_loop n s0 (children (views s0 a)) else Done s0)
         | Grid \<Rightarrow>
             (if list_ex (\<lambda>c. u_focused (views s0 c)) (children (views s0 a)) then Done s0
              else Grid_onfocus_scan n s0 (concat (grid (views s0 a)))))"
| "onfocus_loop 0 s cs = OutOfFuel"
| "onfocus_loop (Suc n) s [] = Done s"
| "onfocus_loop (Suc n) s (c # cs) =
     (case focusable n s c of
        None \<Rightarrow> OutOfFuel
      | Some fc \<Rightarrow>
          if fc \<and> display (views s c) then
            (case set_focused n s c True of
               Done s' \<Rightarrow> onfocus_loop (Suc n) s' cs
             | r \<Rightarrow> r)
          else onfocus_loop (Suc n) s cs)"
| "Grid_onfocus_scan 0 s cells = OutOfFuel"
| "Grid_onfocus_scan (Suc n) s [] = Done s"
| "Grid_onfocus_scan (Suc n) s (None # cells) = Grid_onfocus_scan (Suc n) s cells"
| "Grid_onfocus_scan (Suc n) s (Some c # cells) =
     (case focusable n s (child_of c) of
        None \<Rightarrow> OutOfFuel
      | Some fc \<Rightarrow>
          if fc \<and> display (views s (child_of c)) then set_focused n s (child_of c) True
          else Grid_onfocus_scan (Suc n) s cells)"
| "onunfocus 0 s a = OutOfFuel"
| "onunfocus (Suc n) s a =
     (let s0 = called s (OnUnfocus a)
      in case vclass (views s a) of
           View \<Rightarrow> Done s0
         | Widget \<Rightarrow> Done (update s0 a)
         | ContainerView \<Rightarrow> onunfocus_loop n s0 (children (views s0 a))
         | Grid \<Rightarrow> onunfocus_loop n s0 (children (views s0 a)))"
| "onunfocus_loop 0 s cs = OutOfFuel"
| "onunfocus_loop (Suc n) s [] = Done s"
| "onunfocus_loop (Suc n) s (c # cs) =
     (case set_focused n s c False of
        Done s' \<Rightarrow> onunfocus_loop (Suc n) s' cs
      | r \<Rightarrow> r)"
| "onchildfocused 0 s p cf = OutOfFuel"
| "onchildfocused (Suc n) s p cf =
     (let s0 = called s (OnChildFocused p cf)
      in case vclass (views s p) of
           View \<Rightarrow> Done s0
         | Widget \<Rightarrow> Done s0
         | _ \<Rightarrow>
             (case onchildfocused_loop n s0 (children (views s0 p)) cf of
                Done s1 \<Rightarrow>
                  (let s2 = set_view s1 p (\<lambda>v. v\<lparr>u_focused := True\<rparr>)
                   in case parent (views s2 p) of
                        None \<Rightarrow> Done s2
                      | Some pp \<Rightarrow> onchildfocused n s2 pp p)
              | r \<Rightarrow> r))"
| "onchildfocused_loop 0 s cs cf = OutOfFuel"
| "onchildfocused_loop (Suc n) s [] cf = Done s"
| "onchildfocused_loop (Suc n) s (c # cs) cf =
     (if u_focused (views s c) \<and> c \<noteq> cf then
        (case set_focused n s c False of
           Done s' \<Rightarrow> onchildfocused_loop (Suc n) s' cs cf
         | r \<Rightarrow> r)
      else onchildfocused_loop (Suc n) s cs cf)"
  by pat_completeness auto

termination
  by (relation "measures
        [case_sum (case_sum (case_sum fst fst) (case_sum fst fst))
                  (case_sum (case_sum fst fst) (case_sum fst fst)),
         case_sum (case_sum (case_sum (\<lambda>_. 0) (\<lambda>_. 0))
                            (case_sum (\<lambda>(n, s, cs). length cs) (\<lambda>(n, s, cs). length cs)))
                  (case_sum (case_sum (\<lambda>_. 0) (\<lambda>(n, s, cs). length cs))
                            (case_sum (\<lambda>_. 0) (\<lambda>(n, s, cs, cf). length cs)))]")
     auto

text \<open>
  The setter of \<^verbatim>\<open>dirty\<close>: \<^verbatim>\<open>View.dirty\<close> stores the flag and calls
  \<^verbatim>\<open>update\<close> when it is set; \<^verbatim>\<open>ContainerView.dirty\<close> stores the flag and
  assigns it to every child.
\<close>

function set_dirty :: "nat \<Rightarrow> state \<Rightarrow> nat \<Rightarrow> bool \<Rightarrow> state outcome"
  and set_dirty_loop :: "nat \<Rightarrow> state \<Rightarrow> nat list \<Rightarrow> bool \<Rightarrow> state outcome"
where
  "set_dirty 0 s a d = OutOfFuel"
| "set_dirty (Suc n) s a d =
     (let s1 = set_view s a (\<lambda>v. v\<lparr>u_dirty := d\<rparr>)
      in case vclass (views s a) of
           View \<Rightarrow> Done (if d then update s1 a else s1)
         | Widget \<Rightarrow> Done (if d then update s1 a else s1)
         | _ \<Rightarrow> set_dirty_loop n s1 (children (views s1 a)) d)"
| "set_dirty_loop 0 s cs d = OutOfFuel"
| "set_dirty_loop (Suc n) s [] d = Done s"
| "set_dirty_loop (Suc n) s (c # cs) d =
     (case set_dirty n s c d of
        Done s' \<Rightarrow> set_dirty_loop (Suc n) s' cs d
      | r \<Rightarrow> r)"
  by pat_completeness auto

termination
  by (relation "measures
        [case_sum fst fst,
         case_sum (\<lambda>_. 0) (\<lambda>(n, s, cs, d). length cs)]")
     auto





text \<open>
  Freshly constructed views: \<^verbatim>\<open>View.__init__\<close>, \<^verbatim>\<open>ContainerView.__init__\<close> and
  \<^verbatim>\<open>Grid.__init__\<close>.
\<close>

definition new_View :: view where
  "new_View =
     \<lparr>vclass = View, parent = None, zindex = 0, u_focused = False, u_focusable = True,
      display = True, u_dirty = True, children = [], gwidth = 0, gheight = 0, grid = []\<rparr>"

definition new_ContainerView :: view where
  "new_ContainerView = new_View\<lparr>vclass := ContainerView\<rparr>"


text \<open>The part of an outcome that the scenarios below look at.\<close>

definition focus_after :: "state outcome \<Rightarrow> nat list \<Rightarrow> bool list option" where
  "focus_after r as =
     (case r of Done s \<Rightarrow> Some (map (\<lambda>a. u_focused (views s a)) as) | _ \<Rightarrow> None)"

text \<open>A container (view 0) with two fresh children (views 1 and 2).\<close>

definition two_children :: state where
  "two_children =
     \<lparr>views = (\<lambda>_. new_View)
        (0 := new_ContainerView\<lparr>children := [1, 2]\<rparr>,
         1 := new_View\<lparr>parent := Some 0\<rparr>,
         2 := new_View\<lparr>parent := Some 0\<rparr>),
      trace = []\<rparr>"


section \<open>Value widgets and radio groups\<close>

text \<open>
  \<^verbatim>\<open>ValueWidget\<close>: the attribute \<^verbatim>\<open>_value\<close> and what the setter of \<^verbatim>\<open>value\<close> sends out.
  The handlers bound to the widget and the render thread are outside the widget; the
  model lists the value events fired (new value, old value) and counts the calls of
  \<^verbatim>\<open>update\<close>.
\<close>

record 'v value_widget =
  u_value :: 'v
  fired :: "('v \<times> 'v) list"
  updates :: nat

definition ValueWidget_set_value :: "'v value_widget \<Rightarrow> 'v \<Rightarrow> 'v value_widget" where
  "ValueWidget_set_value w v =
     (if u_value w = v then w
      else w\<lparr>u_value := v, fired := fired w @ [(v, u_value w)], updates := Suc (updates w)\<rparr>)"

text \<open>
  Radios and their groups refer to each other, so they live in a store: \<open>radios\<close> by
  the identity of the radio, \<open>groups\<close> (a \<^verbatim>\<open>Radio.Group\<close> is a list of its members) by
  the identity of the group.  \<open>r_value\<close> and \<open>r_group\<close> are the attributes \<^verbatim>\<open>_value\<close> and
  \<^verbatim>\<open>_group\<close> of a radio.  The trace lists, in order, the value events fired by a radio
  (source, new, old), the value events fired by a group (source, new and old selected
  member) and the calls of \<^verbatim>\<open>update\<close>.
\<close>

record radio =
  r_value :: bool
  r_group :: "nat option"

datatype rcall =
  RadioValue nat bool bool
| GroupValue nat "nat option" "nat option"
| RadioUpdate nat

fun is_GroupValue :: "rcall \<Rightarrow> bool" where
  "is_GroupValue (GroupValue g new old) = True"
| "is_GroupValue _ = False"

record rstate =
  radios :: "nat \<Rightarrow> radio"
  groups :: "nat \<Rightarrow> nat list"
  rtrace :: "rcall list"

text \<open>The property \<^verbatim>\<open>Radio.Group.selected\<close>: the first member whose value is true.\<close>

definition Group_selected :: "rstate \<Rightarrow> nat \<Rightarrow> nat option" where
  "Group_selected s g = find (\<lambda>m. r_value (radios s m)) (groups s g)"

text \<open>
  The setter of \<^verbatim>\<open>value\<close> that a radio inherits from \<^verbatim>\<open>ValueWidget\<close>, the handler
  \<^verbatim>\<open>Radio._onchange\<close> and \<^verbatim>\<open>Radio.Group.select\<close> with its loop.  The fuel bounds the
  depth of nested calls; \<open>None\<close> is a run out of fuel.

  Modelled from the spec: the module \<^verbatim>\<open>wytch.event\<close> is not part of the sources at hand.
  \<^verbatim>\<open>fire\<close> hands the event to the handlers registered for its category whose filter it
  passes; \<^verbatim>\<open>@event.handler("value", new = True)\<close> registers \<^verbatim>\<open>_onchange\<close> for the value
  events whose new value is true.
\<close>

function Radio_set_value :: "nat \<Rightarrow> rstate \<Rightarrow> nat \<Rightarrow> bool \<Rightarrow> rstate option"
  and Radio_onchange :: "nat \<Rightarrow> rstate \<Rightarrow> nat \<Rightarrow> rstate option"
  and Group_select :: "nat \<Rightarrow> rstate \<Rightarrow> nat \<Rightarrow> nat \<Rightarrow> rstate option"
  and Group_select_loop :: "nat \<Rightarrow> rstate \<Rightarrow> nat list \<Rightarrow> nat \<Rightarrow> rstate option"
where
  "Radio_set_value 0 s w v = None"
| "Radio_set_value (Suc n) s w v =
     (if r_value (radios s w) = v then Some s
      else
        (let old = r_value (radios s w);
             s1 = s\<lparr>radios := (radios s)(w := (radios s w)\<lparr>r_value := v\<rparr>)\<rparr>;
             s2 = s1\<lparr>rtrace := rtrace s1 @ [RadioValue w v old]\<rparr>
         in case (if v then Radio_onchange n s2 w else Some s2) of
              None \<Rightarrow> None
            | Some s3 \<Rightarrow> Some (s3\<lparr>rtrace := rtrace s3 @ [RadioUpdate w]\<rparr>)))"
| "Radio_onchange 0 s w = None"
| "Radio_onchange (Suc n) s w =
     (case r_group (radios s w) of
        None \<Rightarrow> Some s
      | Some g \<Rightarrow> if groups s g = [] then Some s else Group_select n s g w)"
| "Group_select 0 s g radio = None"
| "Group_select (Suc n) s g radio =
     (let old = Group_selected s g
      in case Group_select_loop n s (groups s g) radio of
           None \<Rightarrow> None
         | Some s' \<Rightarrow>
             if Group_selected s' g = old then Some s'
             else Some (s'\<lparr>rtrace := rtrace s' @ [GroupValue g (Group_selected s' g) old]\<rparr>))"
| "Group_select_loop 0 s cs radio = None"
| "Group_select_loop (Suc n) s [] radio = Some s"
| "Group_select_loop (Suc n) s (c # cs) radio =
     (if c \<noteq> radio then
        (case Radio_set_value n s c False of
           None \<Rightarrow> None
         | Some s' \<Rightarrow> Group_select_loop (Suc n) s' cs radio)
      else if \<not> r_value (radios s c) then
        (case Radio_set_value n s c True of
           None \<Rightarrow> None
         | Some s' \<Rightarrow> Group_select_loop (Suc n) s' cs radio)
      else Group_select_loop (Suc n) s cs radio)"
  by pat_completeness auto

termination
  by (relation "measures
        [case_sum (case_sum fst fst) (case_sum fst fst),
         case_sum (\<lambda>_. 0) (case_sum (\<lambda>_. 0) (\<lambda>(n, s, cs, r). length cs))]")
     auto

text \<open>
  Setting the value of a radio to false: nothing happens when it is false already;
  otherwise the value is stored, an event is fired (no handler listens to a change to
  false) and \<^verbatim>\<open>update\<close> is called.
\<close>

definition cleared :: "rstate \<Rightarrow> nat \<Rightarrow> rstate" where
  "cleared s c =
     (if r_value (radios s c) then
        s\<lparr>radios := (radios s)(c := (radios s c)\<lparr>r_value := False\<rparr>),
          rtrace := rtrace s @ [RadioValue c False True, RadioUpdate c]\<rparr>
      else s)"


text \<open>
  A group (group 0) of three radios (1, 2 and 3, in this order), the first one
  selected.
\<close>

definition three_radios :: rstate where
  "three_radios =
     \<lparr>radios = (\<lambda>_. \<lparr>r_value = False, r_group = Some 0\<rparr>)
        (1 := \<lparr>r_value = True, r_group = Some 0\<rparr>),
      groups = (\<lambda>_. [])(0 := [1, 2, 3]),
      rtrace = []\<rparr>"

section \<open>The sizing pass of the grid: \<^verbatim>\<open>Grid.precalc\<close>\<close>











section \<open>The layout pass of the plain container: \<^verbatim>\<open>ContainerView.recalc\<close>\<close>










section \<open>Properties of the stacking containers\<close>









text \<open>
  C3 (as amended).  A Vertical container with three children of minimum heights 2, 0
  and 3, only the middle one stretching, on a canvas of height 10: the first child gets
  a canvas of height 2 at offset 0, the third a canvas of height 3 at offset 2, and the
  middle child, whose minimum height is 0, is passed over and keeps the canvas it had
  (none for a fresh view).
\<close>

theorem Vertical_scenario_A:
  "Vertical_recalc (Canvas w 10)
     [\<lparr>size_v = (w1, 2), hstretch = h1, vstretch = False, canvas_v = k1\<rparr>,
      \<lparr>size_v = (w2, 0), hstretch = h2, vstretch = True, canvas_v = k2\<rparr>,
      \<lparr>size_v = (w3, 3), hstretch = h3, vstretch = False, canvas_v = k3\<rparr>] =
     [\<lparr>size_v = (w1, 2), hstretch = h1, vstretch = False,
         canvas_v = Some (SubCanvas (Canvas w 10) 0 0 w 2)\<rparr>,
      \<lparr>size_v = (w2, 0), hstretch = h2, vstretch = True, canvas_v = k2\<rparr>,
      \<lparr>size_v = (w3, 3), hstretch = h3, vstretch = False,
         canvas_v = Some (SubCanvas (Canvas w 10) 0 2 w 3)\<rparr>]"
  by (simp add: Vertical_recalc_def Let_def)

text \<open>C3 as stated: the heights 2, 5 and 3 are not what the three children get.\<close>

theorem Vertical_scenario_A_counterexample:
  "map (\<lambda>c. map_option Canvas_height (canvas_v c))
     (Vertical_recalc (Canvas 80 10)
        [fresh (1, 2) True False, fresh (1, 0) True True, fresh (1, 3) True False]) =
     [Some 2, None, Some 3] \<and>
   [Some 2, None, Some 3] \<noteq> [Some 2, Some 5, Some (3::int)]"
  by (simp add: Vertical_recalc_def fresh_def Let_def)

section \<open>Properties of focus and of the tree of children\<close>

text \<open>
  C4.  Assigning \<^verbatim>\<open>focused = True\<close> to a view that is not focused and whose property
  \<^verbatim>\<open>focusable\<close> is false raises (the code's exception is \<^verbatim>\<open>NotImplementedError\<close>) and
  leaves the store as it was: no attribute changes and no callback runs.
\<close>

theorem focus_unfocusable_raises:
  "focusable n s a = Some False \<Longrightarrow> \<not> u_focused (views s a) \<Longrightarrow>
   set_focused (Suc n) s a True = Raised NotImplementedError s"
  by simp

theorem focus_unfocusable_raises_witness:
  "focusable 1 \<lparr>views = \<lambda>_. new_View\<lparr>u_focusable := False\<rparr>, trace = []\<rparr> 0 = Some False \<and>
   \<not> u_focused (views \<lparr>views = \<lambda>_. new_View\<lparr>u_focusable := False\<rparr>, trace = []\<rparr> 0) \<and>
   set_focused (Suc 1) \<lparr>views = \<lambda>_. new_View\<lparr>u_focusable := False\<rparr>, trace = []\<rparr> 0 True =
     Raised NotImplementedError \<lparr>views = \<lambda>_. new_View\<lparr>u_focusable := False\<rparr>, trace = []\<rparr>"
proof -
  let ?s = "\<lparr>views = \<lambda>_. new_View\<lparr>u_focusable := False\<rparr>, trace = []\<rparr>"
  have a: "focusable 1 ?s 0 = Some False" by (simp add: new_View_def)
  have b: "\<not> u_focused (views ?s 0)" by (simp add: new_View_def)
  from focus_unfocusable_raises [OF a b] a b show ?thesis by blast
qed

text \<open>
  C10.  Assigning \<^verbatim>\<open>focused\<close> the value it has returns at once: the store, the trace of
  callbacks included, is unchanged and nothing is raised, whatever \<^verbatim>\<open>focusable\<close> is.
\<close>

theorem focus_same_value_noop:
  "set_focused (Suc n) s a (u_focused (views s a)) = Done s"
  by simp

text \<open>
  C5 (what the code does).  \<^verbatim>\<open>ContainerView.onfocus\<close> on a container with two fresh
  children, both focusable and displayed: the loop has no \<^verbatim>\<open>break\<close>, it focuses the
  first child and then the second, and focusing the second takes the focus from the
  first.  The container and the second child end focused, the first child does not.
\<close>

theorem ContainerView_onfocus_two_children:
  "focus_after (onfocus 10 two_children 0) [0, 1, 2] = Some [True, False, True]"
  by (simp add: focus_after_def two_children_def new_View_def new_ContainerView_def
      set_view_def called_def update_def numeral_nat)







section \<open>Properties of value widgets and radio groups\<close>

lemma Radio_set_value_False:
  "Radio_set_value (Suc n) s c False = Some (cleared s c)"
  by (simp add: cleared_def)

lemma cleared_simps:
  "groups (cleared s c) = groups s"
  "r_group (radios (cleared s c) m) = r_group (radios s m)"
  "r_value (radios (cleared s c) m) = (if m = c then False else r_value (radios s m))"
  "filter is_GroupValue (rtrace (cleared s c)) = filter is_GroupValue (rtrace s)"
  by (simp_all add: cleared_def)

lemma Group_select_loop_settled:
  assumes "r_value (radios s r) \<or> r \<notin> set cs"
  shows "\<exists>s'. Group_select_loop (Suc (Suc n)) s cs r = Some s' \<and>
           groups s' = groups s \<and>
           (\<forall>m. r_group (radios s' m) = r_group (radios s m)) \<and>
           (\<forall>m. r_value (radios s' m) =
                 (if m \<in> set cs \<and> m \<noteq> r then False else r_value (radios s m))) \<and>
           filter is_GroupValue (rtrace s') = filter is_GroupValue (rtrace s)"
  using assms
proof (induction cs arbitrary: s)
  case Nil
  then show ?case by simp
next
  case (Cons c cs)
  show ?case
  proof (cases "c = r")
    case True
    with Cons.prems have v: "r_value (radios s r)" by auto
    from Cons.IH [of s] v obtain s' where
      "Group_select_loop (Suc (Suc n)) s cs r = Some s'" "groups s' = groups s"
      "\<forall>m. r_group (radios s' m) = r_group (radios s m)"
      "\<forall>m. r_value (radios s' m) =
                 (if m \<in> set cs \<and> m \<noteq> r then False else r_value (radios s m))"
      "filter is_GroupValue (rtrace s') = filter is_GroupValue (rtrace s)"
      by blast
    then show ?thesis using True v by auto
  next
    case False
    have pre: "r_value (radios (cleared s c) r) \<or> r \<notin> set cs"
      using Cons.prems False by (auto simp: cleared_simps)
    from Cons.IH [OF pre] obtain s' where
      "Group_select_loop (Suc (Suc n)) (cleared s c) cs r = Some s'"
      "groups s' = groups (cleared s c)"
      "\<forall>m. r_group (radios s' m) = r_group (radios (cleared s c) m)"
      "\<forall>m. r_value (radios s' m) =
                 (if m \<in> set cs \<and> m \<noteq> r then False else r_value (radios (cleared s c) m))"
      "filter is_GroupValue (rtrace s') = filter is_GroupValue (rtrace (cleared s c))"
      by blast
    then show ?thesis
      using False by (auto simp: Radio_set_value_False cleared_simps simp del: Radio_set_value.simps)
  qed
qed

lemma find_the_only:
  "r \<in> set ms \<Longrightarrow> P r \<Longrightarrow> \<forall>m \<in> set ms. m \<noteq> r \<longrightarrow> \<not> P m \<Longrightarrow> find P ms = Some r"
  by (induction ms) auto

lemma find_Some_holds: "find P ms = Some r \<Longrightarrow> P r \<and> r \<in> set ms"
  by (induction ms) (auto split: if_splits)

text \<open>Selecting the member that is selected already changes no other thing than
  the values of the other members, and fires no group event.\<close>

lemma Group_select_selected:
  assumes "Group_selected s g = Some r"
  shows "\<exists>s'. Group_select (Suc (Suc (Suc n))) s g r = Some s' \<and>
           groups s' = groups s \<and>
           (\<forall>m. r_group (radios s' m) = r_group (radios s m)) \<and>
           (\<forall>m. r_value (radios s' m) =
                 (if m \<in> set (groups s g) \<and> m \<noteq> r then False else r_value (radios s m))) \<and>
           filter is_GroupValue (rtrace s') = filter is_GroupValue (rtrace s)"
proof -
  from assms have r: "r_value (radios s r)" "r \<in> set (groups s g)"
    using find_Some_holds [of "\<lambda>m. r_value (radios s m)" "groups s g" r]
    by (simp_all add: Group_selected_def)
  from Group_select_loop_settled [of s r "groups s g" n] r obtain s' where s':
    "Group_select_loop (Suc (Suc n)) s (groups s g) r = Some s'" "groups s' = groups s"
    "\<forall>m. r_group (radios s' m) = r_group (radios s m)"
    "\<forall>m. r_value (radios s' m) =
          (if m \<in> set (groups s g) \<and> m \<noteq> r then False else r_value (radios s m))"
    "filter is_GroupValue (rtrace s') = filter is_GroupValue (rtrace s)"
    by blast
  have "Group_selected s' g = Some r"
    unfolding Group_selected_def
    by (rule find_the_only) (use r s' in auto)
  then show ?thesis using s' assms by (simp del: Group_select_loop.simps)
qed


lemma Group_select_loop_append:
  "Group_select_loop (Suc k) s (xs @ ys) r =
     (case Group_select_loop (Suc k) s xs r of
        None \<Rightarrow> None
      | Some s' \<Rightarrow> Group_select_loop (Suc k) s' ys r)"
  by (induction xs arbitrary: s) (auto split: option.splits)

lemma find_first_after:
  "\<forall>m \<in> set pre. \<not> P m \<Longrightarrow> P r \<Longrightarrow> find P (pre @ r # post) = Some r"
  by (induction pre) auto

lemma Group_select_member:
  assumes mem: "r \<in> set (groups s g)" and grp: "r_group (radios s r) = Some g"
  shows "\<exists>s'. Group_select (Suc (Suc (Suc (Suc (Suc (Suc (Suc n))))))) s g r = Some s' \<and>
           groups s' g = groups s g \<and>
           (\<forall>m \<in> set (groups s g). r_value (radios s' m) = (m = r)) \<and>
           Group_selected s' g = Some r \<and>
           filter is_GroupValue (rtrace s') =
             filter is_GroupValue (rtrace s) @
               (if Group_selected s g = Some r then []
                else [GroupValue g (Some r) (Group_selected s g)])"
proof -
  let ?K = "Suc (Suc (Suc (Suc (Suc n))))"
  let ?ms = "groups s g"
  have loop: "\<exists>s'. Group_select_loop (Suc ?K) s ?ms r = Some s' \<and>
           groups s' g = ?ms \<and>
           (\<forall>m \<in> set ?ms. r_value (radios s' m) = (m = r)) \<and>
           filter is_GroupValue (rtrace s') = filter is_GroupValue (rtrace s)"
  proof (cases "r_value (radios s r)")
    case True
    from Group_select_loop_settled [of s r ?ms "Suc (Suc (Suc (Suc n)))"] True
    obtain s' where
      "Group_select_loop (Suc ?K) s ?ms r = Some s'" "groups s' = groups s"
      "\<forall>m. r_value (radios s' m) =
            (if m \<in> set ?ms \<and> m \<noteq> r then False else r_value (radios s m))"
      "filter is_GroupValue (rtrace s') = filter is_GroupValue (rtrace s)"
      by blast
    then show ?thesis using True by auto
  next
    case False
    from mem obtain pre post where ms: "?ms = pre @ r # post" and pre: "r \<notin> set pre"
      by (auto dest: split_list_first)
    \<comment> \<open>the members before \<open>r\<close>\<close>
    from Group_select_loop_settled [of sa r pre "Suc (Suc (Suc (Suc n)))" for sa] pre
    obtain sa where sa:
      "Group_select_loop (Suc ?K) s pre r = Some sa" "groups sa = groups s"
      "\<forall>m. r_group (radios sa m) = r_group (radios s m)"
      "\<forall>m. r_value (radios sa m) =
            (if m \<in> set pre \<and> m \<noteq> r then False else r_value (radios s m))"
      "filter is_GroupValue (rtrace sa) = filter is_GroupValue (rtrace s)"
      by blast
    \<comment> \<open>\<open>r\<close> itself: the value is stored, the event fired, and the handler selects again\<close>
    define s2 where "s2 = sa\<lparr>radios := (radios sa)(r := (radios sa r)\<lparr>r_value := True\<rparr>),
      rtrace := rtrace sa @ [RadioValue r True False]\<rparr>"
    have s2: "groups s2 = groups s" "\<forall>m. r_group (radios s2 m) = r_group (radios s m)"
      "\<forall>m. r_value (radios s2 m) = (if m = r then True else r_value (radios sa m))"
      "filter is_GroupValue (rtrace s2) = filter is_GroupValue (rtrace s)"
      using sa by (simp_all add: s2_def)
    have "Group_selected s2 g = Some r"
      unfolding Group_selected_def s2(1) ms
      by (rule find_first_after) (use s2 sa pre in auto)
    from Group_select_selected [OF this, of n] obtain s3 where s3:
      "Group_select (Suc (Suc (Suc n))) s2 g r = Some s3" "groups s3 = groups s2"
      "\<forall>m. r_group (radios s3 m) = r_group (radios s2 m)"
      "\<forall>m. r_value (radios s3 m) =
            (if m \<in> set (groups s2 g) \<and> m \<noteq> r then False else r_value (radios s2 m))"
      "filter is_GroupValue (rtrace s3) = filter is_GroupValue (rtrace s2)"
      by blast
    define s4 where "s4 = s3\<lparr>rtrace := rtrace s3 @ [RadioUpdate r]\<rparr>"
    have set_r: "Radio_set_value ?K sa r True = Some s4"
    proof -
      have "\<not> r_value (radios sa r)" using sa(4) False by simp
      moreover have "Radio_onchange (Suc (Suc (Suc (Suc n)))) s2 r = Some s3"
        using s2 s3(1) grp ms by (simp del: Group_select.simps)
      ultimately show ?thesis
        by (simp add: s2_def [symmetric] s4_def Let_def del: Radio_onchange.simps)
    qed
    have s4: "groups s4 = groups s" "\<forall>m. r_group (radios s4 m) = r_group (radios s m)"
      "\<forall>m. r_value (radios s4 m) = (if m \<in> set ?ms then m = r else r_value (radios s m))"
      "filter is_GroupValue (rtrace s4) = filter is_GroupValue (rtrace s)"
      using s2 s3(2-5) sa(2-5) ms False by (auto simp: s4_def)
    \<comment> \<open>the members after \<open>r\<close>\<close>
    have "r_value (radios s4 r)" using s4(3) mem by simp
    with Group_select_loop_settled [of s4 r post "Suc (Suc (Suc (Suc n)))"]
    obtain s5 where s5:
      "Group_select_loop (Suc ?K) s4 post r = Some s5" "groups s5 = groups s4"
      "\<forall>m. r_value (radios s5 m) =
            (if m \<in> set post \<and> m \<noteq> r then False else r_value (radios s4 m))"
      "filter is_GroupValue (rtrace s5) = filter is_GroupValue (rtrace s4)"
      by blast
    have "Group_select_loop (Suc ?K) sa (r # post) r = Some s5"
      using set_r s5(1) sa(4) False
      by (simp del: Radio_set_value.simps)
    then have "Group_select_loop (Suc ?K) s ?ms r = Some s5"
      using sa(1) by (simp add: ms Group_select_loop_append del: Group_select_loop.simps)
    moreover have "\<forall>m \<in> set ?ms. r_value (radios s5 m) = (m = r)"
      using s5(3) s4(3) by (auto simp: ms)
    ultimately show ?thesis using s5 s4 by auto
  qed
  then obtain s' where s':
    "Group_select_loop (Suc ?K) s ?ms r = Some s'" "groups s' g = ?ms"
    "\<forall>m \<in> set ?ms. r_value (radios s' m) = (m = r)"
    "filter is_GroupValue (rtrace s') = filter is_GroupValue (rtrace s)"
    by blast
  have sel: "Group_selected s' g = Some r"
    unfolding Group_selected_def s'(2)
    by (rule find_the_only) (use mem s'(3) in auto)
  show ?thesis
  proof (cases "Group_selected s g = Some r")
    case True
    then show ?thesis using s' sel by (simp del: Group_select_loop.simps)
  next
    case False
    then show ?thesis using s' sel
      by (simp add: Group_selected_def del: Group_select_loop.simps)
  qed
qed


text \<open>
  C6 (as amended).  After \<^verbatim>\<open>group.select(r)\<close> for a member \<open>r\<close> of the group (whose
  \<^verbatim>\<open>group\<close> attribute is this group), \<open>r\<close> is the only member whose value is true and
  the selected member; the group fires exactly one value event, carrying \<open>r\<close> and the
  member selected before, when that member was not \<open>r\<close>, and no event when \<open>r\<close> was the
  selected member already.
\<close>

theorem Group_select_exclusive:
  assumes "r \<in> set (groups s g)" and "r_group (radios s r) = Some g"
  shows "\<exists>s'. Group_select (n + 7) s g r = Some s' \<and>
           groups s' g = groups s g \<and>
           (\<forall>m \<in> set (groups s g). r_value (radios s' m) = (m = r)) \<and>
           Group_selected s' g = Some r \<and>
           filter is_GroupValue (rtrace s') =
             filter is_GroupValue (rtrace s) @
               (if Group_selected s g = Some r then []
                else [GroupValue g (Some r) (Group_selected s g)])"
proof -
  have "n + 7 = Suc (Suc (Suc (Suc (Suc (Suc (Suc n))))))" by simp
  then show ?thesis
    using Group_select_member [OF assms, of n] by (simp only:)
qed

theorem Group_select_exclusive_witness:
  "\<exists>s'. Group_select 7 three_radios 0 2 = Some s' \<and>
        map (\<lambda>m. r_value (radios s' m)) [1, 2, 3] = [False, True, False] \<and>
        filter is_GroupValue (rtrace s') = [GroupValue 0 (Some 2) (Some 1)]"
proof -
  have a: "2 \<in> set (groups three_radios 0)" by (simp add: three_radios_def)
  have b: "r_group (radios three_radios 2) = Some 0" by (simp add: three_radios_def)
  have c: "groups three_radios 0 = [1, 2, 3]" "rtrace three_radios = []"
    "Group_selected three_radios 0 = Some 1"
    by (simp_all add: three_radios_def Group_selected_def)
  from Group_select_exclusive [OF a b, of 0] obtain s' where
    "Group_select 7 three_radios 0 2 = Some s'"
    "\<forall>m \<in> set (groups three_radios 0). r_value (radios s' m) = (m = 2)"
    "filter is_GroupValue (rtrace s') =
       filter is_GroupValue (rtrace three_radios) @
         (if Group_selected three_radios 0 = Some 2 then []
          else [GroupValue 0 (Some 2) (Group_selected three_radios 0)])"
    by auto
  then show ?thesis using c by auto
qed

text \<open>
  C6 as stated: selecting the member that is selected already fires no group event at
  all, not one.
\<close>

theorem Group_select_again_counterexample:
  "(case Group_select 7 three_radios 0 1 of
      Some s' \<Rightarrow>
        Group_selected three_radios 0 = Some 1 \<and>
        map (\<lambda>m. r_value (radios s' m)) [1, 2, 3] = [True, False, False] \<and>
        filter is_GroupValue (rtrace s') = []
    | None \<Rightarrow> False)"
  by (simp add: three_radios_def Group_selected_def numeral_nat)

text \<open>
  C9.  Assigning a value widget the value it holds returns at once: the stored value is
  unchanged, no value event is fired and \<^verbatim>\<open>update\<close> is not called.  The same holds for
  the setter as a radio inherits it, handler included.
\<close>

theorem ValueWidget_same_value_noop:
  "ValueWidget_set_value w (u_value w) = w \<and>
   Radio_set_value (Suc n) s r (r_value (radios s r)) = Some s"
  by (simp add: ValueWidget_set_value_def)

section \<open>Properties of the sizing pass of the grid\<close>









section \<open>Properties of the layout pass of the plain container\<close>












end
